theory Spec2Isabelle
  imports Main "HOL-Library.Char_ord" "HOL-Library.List_Lexorder"
begin

section \<open>The bookmark dashboard: data model\<close>

text \<open>
  The component \<open>BookmarkDashboard\<close> (src/components/BookmarkDashboard.tsx) keeps a list of
  bookmarks in React state, fills it from a query to the Store, and updates it from the
  INSERT and DELETE notifications of a realtime channel and from two form handlers.

  A JavaScript string is modelled as a \<open>string\<close>, one \<open>char\<close> per code unit, which covers
  every string whose code units are below 256. The interface \<open>Bookmark\<close> becomes a record;
  its fields \<open>id\<close>, \<open>url\<close> and \<open>title\<close> carry the suffix \<open>_b\<close> since \<open>id\<close> is a constant of HOL
  and \<open>url\<close>, \<open>title\<close> are also state variables of the component.
\<close>

record Bookmark =
  id_b :: string
  url_b :: string
  title_b :: string
  created_at :: string
  user_id :: string

text \<open>
  The eight \<open>useState\<close> cells of the component (lines 16 to 23), with their initial values
  in \<open>init\<close>. \<open>deletingId\<close> and \<open>errorMsg\<close> are \<open>string | null\<close>.
\<close>

record dashboard =
  bookmarks :: "Bookmark list"
  url :: string
  title :: string
  loading :: bool
  adding :: bool
  deletingId :: "string option"
  showForm :: bool
  errorMsg :: "string option"

definition init :: dashboard where
  "init = \<lparr>bookmarks = [], url = [], title = [], loading = True, adding = False,
            deletingId = None, showForm = False, errorMsg = None\<rparr>"

text \<open>
  What the component sends to its collaborators. A query of the Store names its table and
  its \<open>.eq(column, value)\<close> filters; a select also carries its \<open>.order(column, {ascending})\<close>;
  an insert carries the columns of the new row. A subscription names the channel and, for
  each \<open>.on("postgres_changes", ...)\<close> registration, the event and its filter.
\<close>

datatype request =
    SelectReq string "(string \<times> string) list" "string \<times> bool"
  | InsertReq string "(string \<times> string) list"
  | DeleteReq string "(string \<times> string) list"
  | SubscribeReq string "(string \<times> string) list"
  | RemoveChannelReq string

text \<open>
  The answer \<open>{ data, error }\<close> of a select: \<open>error\<close> is \<open>None\<close> for \<open>null\<close> and otherwise holds
  \<open>error.message\<close>; \<open>data\<close> is \<open>None\<close> for \<open>null\<close>. An array, also the empty one, is truthy in
  JavaScript, so \<open>Some []\<close> takes the branch \<open>else if (data)\<close>.
\<close>

record response =
  data :: "Bookmark list option"
  error :: "string option"

text \<open>The status a realtime channel reports to the callback of \<open>subscribe\<close>, when one is given.\<close>

datatype channel_status = SUBSCRIBED | CHANNEL_ERROR | TIMED_OUT | CLOSED

section \<open>String helpers of JavaScript\<close>

text \<open>
  \<open>String.prototype.trim\<close> removes white space and line terminators from both ends. Among
  the code units below 256 these are TAB, LF, VT, FF, CR, SPACE and NO-BREAK SPACE.
\<close>

definition isWhiteSpace :: "char \<Rightarrow> bool" where
  "isWhiteSpace c = (of_char c \<in> {9, 10, 11, 12, 13, 32, 160 :: nat})"

definition trim :: "string \<Rightarrow> string" where
  "trim s = rev (dropWhile isWhiteSpace (rev (dropWhile isWhiteSpace s)))"

definition startsWith :: "string \<Rightarrow> string \<Rightarrow> bool" where
  "startsWith s p = (take (length p) s = p)"

section \<open>The realtime handlers\<close>

text \<open>
  Lines 58 to 64, the INSERT handler: the updater given to \<open>setBookmarks\<close> returns \<open>prev\<close>
  itself when some element has the id of \<open>payload.new\<close>, and otherwise \<open>payload.new\<close> in
  front of \<open>prev\<close>.
\<close>

definition on_INSERT_updater :: "Bookmark \<Rightarrow> Bookmark list \<Rightarrow> Bookmark list" where
  "on_INSERT_updater new prev =
     (if list_ex (\<lambda>b. id_b b = id_b new) prev then prev else new # prev)"

definition on_INSERT :: "Bookmark \<Rightarrow> dashboard \<Rightarrow> dashboard" where
  "on_INSERT new s = s\<lparr>bookmarks := on_INSERT_updater new (bookmarks s)\<rparr>"

text \<open>
  Lines 74 to 78, the DELETE handler: the updater keeps the elements whose id differs from
  \<open>payload.old.id\<close>.
\<close>

definition on_DELETE_updater :: "string \<Rightarrow> Bookmark list \<Rightarrow> Bookmark list" where
  "on_DELETE_updater old_id prev = filter (\<lambda>b. id_b b \<noteq> old_id) prev"

definition on_DELETE :: "string \<Rightarrow> dashboard \<Rightarrow> dashboard" where
  "on_DELETE old_id s = s\<lparr>bookmarks := on_DELETE_updater old_id (bookmarks s)\<rparr>"

section \<open>Reading the snapshot\<close>

text \<open>
  Lines 27 to 42, \<open>fetchBookmarks\<close>. Up to its \<open>await\<close> it clears the error message and
  sends the select, filtered by \<open>user_id\<close> and ordered by \<open>created_at\<close> descending
  (\<open>ascending: false\<close>). \<open>uid\<close> is \<open>user.id\<close>, which every handler has in its closure.
\<close>

definition fetchBookmarks_request :: "string \<Rightarrow> request" where
  "fetchBookmarks_request uid =
     SelectReq ''bookmarks'' [(''user_id'', uid)] (''created_at'', False)"

definition fetchBookmarks_begin :: "string \<Rightarrow> dashboard \<Rightarrow> dashboard \<times> request list" where
  "fetchBookmarks_begin uid s = (s\<lparr>errorMsg := None\<rparr>, [fetchBookmarks_request uid])"

text \<open>
  After the \<open>await\<close>, whenever the answer arrives: an error sets the message, otherwise
  non-null data replaces the collection; \<open>loading\<close> is cleared in every case. The state is
  the one the component has at that moment.
\<close>

definition fetchBookmarks_resolve :: "response \<Rightarrow> dashboard \<Rightarrow> dashboard" where
  "fetchBookmarks_resolve r s =
     (case error r of
        Some msg \<Rightarrow> s\<lparr>errorMsg := Some msg\<rparr>
      | None \<Rightarrow> (case data r of Some d \<Rightarrow> s\<lparr>bookmarks := d\<rparr> | None \<Rightarrow> s))
     \<lparr>loading := False\<rparr>"

section \<open>The effect and its cleanup\<close>

text \<open>
  Lines 45 to 85. The effect starts \<open>fetchBookmarks\<close> and subscribes the channel
  \<open>bookmarks-realtime\<close> with the two handlers above, both filtered by \<open>user_id=eq.<uid>\<close>.
  Its cleanup removes the channel and does nothing else. \<open>subscribe()\<close> is called without a
  callback, so a status of the channel runs no code of the component: \<open>subscribe_status\<close>
  is the identity.
\<close>

definition realtime_effect :: "string \<Rightarrow> dashboard \<Rightarrow> dashboard \<times> request list" where
  "realtime_effect uid s =
     (case fetchBookmarks_begin uid s of
        (s1, rs) \<Rightarrow>
          (s1, rs @ [SubscribeReq ''bookmarks-realtime''
                       [(''INSERT'', ''user_id=eq.'' @ uid), (''DELETE'', ''user_id=eq.'' @ uid)]]))"

definition realtime_cleanup :: "dashboard \<Rightarrow> dashboard \<times> request list" where
  "realtime_cleanup s = (s, [RemoveChannelReq ''bookmarks-realtime''])"

definition subscribe_status :: "channel_status \<Rightarrow> dashboard \<Rightarrow> dashboard" where
  "subscribe_status st s = s"

section \<open>Adding a bookmark\<close>

text \<open>
  Lines 95 to 99: the URL is trimmed, and \<open>https://\<close> is put in front unless the trimmed
  URL starts with \<open>http://\<close> or with \<open>https://\<close>.
\<close>

definition finalUrl :: "string \<Rightarrow> string" where
  "finalUrl u =
     (if \<not> startsWith (trim u) ''http://'' \<and> \<not> startsWith (trim u) ''https://''
      then ''https://'' @ trim u else trim u)"

text \<open>
  Lines 88 to 105, \<open>handleAddBookmark\<close> up to its \<open>await\<close>: it returns at once when the
  trimmed URL or the trimmed title is empty; otherwise it sets \<open>adding\<close>, clears the error
  message and sends the insert.
\<close>

definition handleAddBookmark_begin :: "string \<Rightarrow> dashboard \<Rightarrow> dashboard \<times> request list" where
  "handleAddBookmark_begin uid s =
     (if trim (url s) = [] \<or> trim (title s) = [] then (s, [])
      else (s\<lparr>adding := True, errorMsg := None\<rparr>,
            [InsertReq ''bookmarks''
               [(''url'', finalUrl (url s)), (''title'', trim (title s)), (''user_id'', uid)]]))"

text \<open>
  Lines 107 to 118, after the \<open>await\<close>; \<open>err\<close> is \<open>error.message\<close> of the answer, \<open>None\<close> for
  \<open>null\<close>. On an error the message is set; otherwise the form is cleared and closed and
  \<open>fetchBookmarks\<close> is started (not awaited). \<open>adding\<close> is cleared in both cases.
\<close>

definition handleAddBookmark_resolve ::
  "string \<Rightarrow> string option \<Rightarrow> dashboard \<Rightarrow> dashboard \<times> request list" where
  "handleAddBookmark_resolve uid err s =
     (case err of
        Some msg \<Rightarrow> (s\<lparr>errorMsg := Some msg, adding := False\<rparr>, [])
      | None \<Rightarrow>
          (case fetchBookmarks_begin uid (s\<lparr>url := [], title := [], showForm := False\<rparr>) of
             (s1, rs) \<Rightarrow> (s1\<lparr>adding := False\<rparr>, rs)))"

text \<open>The whole handler when nothing else happens between the insert and its answer.\<close>

definition handleAddBookmark ::
  "string \<Rightarrow> string option \<Rightarrow> dashboard \<Rightarrow> dashboard \<times> request list" where
  "handleAddBookmark uid err s =
     (case handleAddBookmark_begin uid s of
        (s1, []) \<Rightarrow> (s1, [])
      | (s1, r # rs) \<Rightarrow>
          (case handleAddBookmark_resolve uid err s1 of
             (s2, rs2) \<Rightarrow> (s2, (r # rs) @ rs2)))"

section \<open>Deleting a bookmark\<close>

text \<open>
  Lines 122 to 126, \<open>handleDeleteBookmark\<close>: it marks the id as being deleted, sends a
  delete filtered by \<open>.eq("id", id)\<close>, awaits the answer without reading it, and clears the
  mark. \<open>user.id\<close> is in the closure and is not used.
\<close>

definition handleDeleteBookmark_begin ::
  "string \<Rightarrow> string \<Rightarrow> dashboard \<Rightarrow> dashboard \<times> request list" where
  "handleDeleteBookmark_begin uid i s =
     (s\<lparr>deletingId := Some i\<rparr>, [DeleteReq ''bookmarks'' [(''id'', i)]])"

definition handleDeleteBookmark_resolve :: "string option \<Rightarrow> dashboard \<Rightarrow> dashboard" where
  "handleDeleteBookmark_resolve err s = s\<lparr>deletingId := None\<rparr>"

definition handleDeleteBookmark ::
  "string \<Rightarrow> string \<Rightarrow> string option \<Rightarrow> dashboard \<Rightarrow> dashboard \<times> request list" where
  "handleDeleteBookmark uid i err s =
     (case handleDeleteBookmark_begin uid i s of
        (s1, rs) \<Rightarrow> (handleDeleteBookmark_resolve err s1, rs))"

section \<open>The error alert\<close>

text \<open>
  Lines 222 to 235: the alert is rendered when \<open>errorMsg\<close> is truthy, that is neither \<open>null\<close>
  nor the empty string, and shows the message; its button sets \<open>errorMsg\<close> to \<open>null\<close>.
\<close>

definition errorAlert :: "dashboard \<Rightarrow> string option" where
  "errorAlert s = (case errorMsg s of None \<Rightarrow> None | Some m \<Rightarrow> if m = [] then None else Some m)"

definition dismissError :: "dashboard \<Rightarrow> dashboard" where
  "dismissError s = s\<lparr>errorMsg := None\<rparr>"

section \<open>Sequences of operations and the ordering rule\<close>

text \<open>
  The three kinds of operation that change the collection, and a run of them in the order
  in which they reach the component.
\<close>

datatype operation = Snapshot response | Added Bookmark | Removed string

fun apply_operation :: "operation \<Rightarrow> dashboard \<Rightarrow> dashboard" where
  "apply_operation (Snapshot r) s = fetchBookmarks_resolve r s"
| "apply_operation (Added b) s = on_INSERT b s"
| "apply_operation (Removed i) s = on_DELETE i s"

definition run :: "operation list \<Rightarrow> dashboard \<Rightarrow> dashboard" where
  "run ops s = fold apply_operation ops s"

text \<open>
  The ordering rule in the words of the specification: \<open>createdAt\<close> descending, ties broken
  by \<open>id\<close> ascending. Both fields are strings and are compared as such (code unit by code
  unit), which for timestamps written in one format and one offset is the order in time.
\<close>

definition precedes :: "Bookmark \<Rightarrow> Bookmark \<Rightarrow> bool" where
  "precedes a b =
     (created_at b < created_at a \<or> (created_at a = created_at b \<and> id_b a \<le> id_b b))"

definition ordered :: "Bookmark list \<Rightarrow> bool" where
  "ordered bs = sorted_wrt precedes bs"

text \<open>
  An operation arrives in order at a state when it cannot break the rule there: a snapshot
  that succeeds with data brings data sorted by the rule, and an added record either has
  the id of an element of the collection or precedes every element of the collection. A
  run is in order when each of its operations arrives in order at the state it meets.
\<close>

fun arrives_in_order :: "operation \<Rightarrow> dashboard \<Rightarrow> bool" where
  "arrives_in_order (Snapshot r) s =
     (case error r of
        Some msg \<Rightarrow> True
      | None \<Rightarrow> (case data r of Some d \<Rightarrow> ordered d | None \<Rightarrow> True))"
| "arrives_in_order (Added b) s =
     (list_ex (\<lambda>x. id_b x = id_b b) (bookmarks s) \<or> list_all (precedes b) (bookmarks s))"
| "arrives_in_order (Removed i) s = True"

fun in_order_run :: "operation list \<Rightarrow> dashboard \<Rightarrow> bool" where
  "in_order_run [] s = True"
| "in_order_run (x # xs) s = (arrives_in_order x s \<and> in_order_run xs (apply_operation x s))"

text \<open>The \<open>.eq\<close> filters a request carries.\<close>

fun filters_of :: "request \<Rightarrow> (string \<times> string) list" where
  "filters_of (SelectReq t fs ord) = fs"
| "filters_of (InsertReq t row) = []"
| "filters_of (DeleteReq t fs) = fs"
| "filters_of (SubscribeReq c regs) = []"
| "filters_of (RemoveChannelReq c) = []"

definition scoped_to :: "string \<Rightarrow> string \<Rightarrow> request \<Rightarrow> bool" where
  "scoped_to col v r = ((col, v) \<in> set (filters_of r))"

section \<open>Example data\<close>

definition bm1 :: Bookmark where
  "bm1 = \<lparr>id_b = ''1'', url_b = ''https://one.example'', title_b = ''One'',
           created_at = ''2024-01-01T10:00:00+00:00'', user_id = ''u1''\<rparr>"

definition bm2 :: Bookmark where
  "bm2 = \<lparr>id_b = ''2'', url_b = ''https://two.example'', title_b = ''Two'',
           created_at = ''2024-01-02T10:00:00+00:00'', user_id = ''u1''\<rparr>"

definition form :: "string \<Rightarrow> string \<Rightarrow> dashboard" where
  "form t u = init\<lparr>title := t, url := u, showForm := True, loading := False\<rparr>"

section \<open>Insertion by the feed\<close>

lemma on_INSERT_updater_present:
  "list_ex (\<lambda>b. id_b b = id_b new) prev \<Longrightarrow> on_INSERT_updater new prev = prev"
  by (simp add: on_INSERT_updater_def)

lemma on_INSERT_updater_absent:
  "\<not> list_ex (\<lambda>b. id_b b = id_b new) prev \<Longrightarrow> on_INSERT_updater new prev = new # prev"
  by (simp add: on_INSERT_updater_def)

lemma on_INSERT_updater_has_id:
  "list_ex (\<lambda>b. id_b b = id_b new) (on_INSERT_updater new prev)"
  by (simp add: on_INSERT_updater_def)

text \<open>
  Claim C1. The INSERT handler puts the record into the collection only when no element
  has its id: with such an element the collection is returned as it is, without one the
  record is put in front. Hence handling \<open>Added r\<close> twice gives the collection that handling
  it once gives, on the list and on the state of the component.
\<close>

theorem C1_insert_idempotent:
  "(list_ex (\<lambda>b. id_b b = id_b r) prev \<longrightarrow> on_INSERT_updater r prev = prev) \<and>
   (\<not> list_ex (\<lambda>b. id_b b = id_b r) prev \<longrightarrow> on_INSERT_updater r prev = r # prev) \<and>
   on_INSERT_updater r (on_INSERT_updater r prev) = on_INSERT_updater r prev \<and>
   on_INSERT r (on_INSERT r s) = on_INSERT r s"
proof -
  have twice: "on_INSERT_updater r (on_INSERT_updater r prev) = on_INSERT_updater r prev"
    for prev
    by (rule on_INSERT_updater_present) (rule on_INSERT_updater_has_id)
  have "on_INSERT r (on_INSERT r s) = on_INSERT r s"
    by (simp add: on_INSERT_def twice)
  with twice show ?thesis
    by (simp add: on_INSERT_updater_present on_INSERT_updater_absent)
qed

theorem C1_insert_idempotent_witness:
  "list_ex (\<lambda>b. id_b b = id_b bm1) [bm1] \<and> \<not> list_ex (\<lambda>b. id_b b = id_b bm2) [bm1] \<and>
   on_INSERT_updater bm1 [bm1] = [bm1] \<and> length (on_INSERT_updater bm1 [bm1]) = 1 \<and>
   on_INSERT_updater bm2 [bm1] = [bm2, bm1] \<and>
   on_INSERT_updater bm2 (on_INSERT_updater bm2 [bm1]) = [bm2, bm1]"
proof -
  have p: "list_ex (\<lambda>b. id_b b = id_b bm1) [bm1]"
    by simp
  have a: "\<not> list_ex (\<lambda>b. id_b b = id_b bm2) [bm1]"
    by (simp add: bm1_def bm2_def)
  have once1: "on_INSERT_updater bm1 [bm1] = [bm1]"
    using p C1_insert_idempotent [of bm1 "[bm1]"] by blast
  have once2: "on_INSERT_updater bm2 [bm1] = [bm2, bm1]"
    using a C1_insert_idempotent [of bm2 "[bm1]"] by blast
  have "on_INSERT_updater bm2 (on_INSERT_updater bm2 [bm1]) = on_INSERT_updater bm2 [bm1]"
    using C1_insert_idempotent [of bm2 "[bm1]"] by blast
  with p a once1 once2 show ?thesis
    by simp
qed

section \<open>Removal by the feed\<close>

lemma on_DELETE_updater_absent:
  "\<not> list_ex (\<lambda>b. id_b b = i) prev \<Longrightarrow> on_DELETE_updater i prev = prev"
  by (induction prev) (auto simp: on_DELETE_updater_def)

lemma on_DELETE_updater_gone: "\<not> list_ex (\<lambda>b. id_b b = i) (on_DELETE_updater i prev)"
  by (simp add: on_DELETE_updater_def list_ex_iff)

lemma on_DELETE_updater_shorter:
  "list_ex (\<lambda>b. id_b b = i) prev \<Longrightarrow> length (on_DELETE_updater i prev) < length prev"
proof (induction prev)
  case Nil
  then show ?case by simp
next
  case (Cons b bs)
  show ?case
  proof (cases "id_b b = i")
    case True
    then show ?thesis by (simp add: on_DELETE_updater_def less_Suc_eq_le)
  next
    case False
    with Cons show ?thesis by (simp add: on_DELETE_updater_def)
  qed
qed

text \<open>
  Claim C3. The DELETE handler changes the collection and nothing else in the state, and
  its updater walks the list: it drops each element whose id is the removed one and keeps
  every other element where it is. So afterwards no element has the removed id, the
  elements with another id are those that stay, and the collection is shorter when an
  element had the id. When no element has the id, the list and the whole state of the
  component are returned as they were: the handler is a total function and has no error
  branch.
\<close>

theorem C3_delete_removes_or_noop:
  "on_DELETE i s = s\<lparr>bookmarks := on_DELETE_updater i (bookmarks s)\<rparr> \<and>
   on_DELETE_updater i [] = [] \<and>
   on_DELETE_updater i (b # prev) =
     (if id_b b = i then on_DELETE_updater i prev else b # on_DELETE_updater i prev) \<and>
   \<not> list_ex (\<lambda>b. id_b b = i) (on_DELETE_updater i prev) \<and>
   \<not> list_ex (\<lambda>b. id_b b = i) (bookmarks (on_DELETE i s)) \<and>
   set (on_DELETE_updater i prev) = set prev - {b. id_b b = i} \<and>
   (list_ex (\<lambda>b. id_b b = i) prev \<longrightarrow> length (on_DELETE_updater i prev) < length prev) \<and>
   (\<not> list_ex (\<lambda>b. id_b b = i) prev \<longrightarrow> on_DELETE_updater i prev = prev) \<and>
   (\<not> list_ex (\<lambda>b. id_b b = i) (bookmarks s) \<longrightarrow> on_DELETE i s = s)"
proof -
  have walk: "on_DELETE_updater i [] = []"
    "on_DELETE_updater i (b # prev) =
       (if id_b b = i then on_DELETE_updater i prev else b # on_DELETE_updater i prev)"
    by (simp_all add: on_DELETE_updater_def)
  have handler: "on_DELETE i s = s\<lparr>bookmarks := on_DELETE_updater i (bookmarks s)\<rparr>"
    by (simp add: on_DELETE_def)
  have gone: "\<not> list_ex (\<lambda>b. id_b b = i) (bookmarks (on_DELETE i s))"
    by (simp add: on_DELETE_def on_DELETE_updater_gone)
  have kept: "set (on_DELETE_updater i prev) = set prev - {b. id_b b = i}"
    by (auto simp: on_DELETE_updater_def)
  have state: "\<not> list_ex (\<lambda>b. id_b b = i) (bookmarks s) \<longrightarrow> on_DELETE i s = s"
    by (simp add: on_DELETE_def on_DELETE_updater_absent)
  from walk handler gone kept state show ?thesis
    using on_DELETE_updater_gone [of i prev] on_DELETE_updater_shorter [of i prev]
      on_DELETE_updater_absent [of i prev]
    by blast
qed

theorem C3_delete_removes_or_noop_witness:
  "list_ex (\<lambda>b. id_b b = ''1'') [bm2, bm1] \<and> \<not> list_ex (\<lambda>b. id_b b = ''1'') [bm2] \<and>
   length (on_DELETE_updater ''1'' [bm2, bm1]) < length [bm2, bm1] \<and>
   bookmarks (on_DELETE ''1'' (init\<lparr>bookmarks := [bm2, bm1]\<rparr>)) = [bm2] \<and>
   on_DELETE_updater ''1'' [bm2] = [bm2] \<and>
   on_DELETE ''1'' (init\<lparr>bookmarks := [bm2]\<rparr>) = init\<lparr>bookmarks := [bm2]\<rparr>"
proof -
  have ids: "id_b bm1 = ''1''" "id_b bm2 \<noteq> ''1''"
    by (simp_all add: bm1_def bm2_def)
  have p: "list_ex (\<lambda>b. id_b b = ''1'') [bm2, bm1]"
    by (simp add: ids)
  have a: "\<not> list_ex (\<lambda>b. id_b b = ''1'') [bm2]"
    by (simp add: ids)
  have a': "\<not> list_ex (\<lambda>b. id_b b = ''1'') (bookmarks (init\<lparr>bookmarks := [bm2]\<rparr>))"
    using a by simp
  have "length (on_DELETE_updater ''1'' [bm2, bm1]) < length [bm2, bm1]"
    using p C3_delete_removes_or_noop [where i = "''1''" and prev = "[bm2, bm1]"] by blast
  moreover have "on_DELETE_updater ''1'' [bm2] = [bm2]"
    using a C3_delete_removes_or_noop [where i = "''1''" and prev = "[bm2]"] by blast
  moreover have "on_DELETE ''1'' (init\<lparr>bookmarks := [bm2]\<rparr>) = init\<lparr>bookmarks := [bm2]\<rparr>"
    using a' C3_delete_removes_or_noop [where i = "''1''" and s = "init\<lparr>bookmarks := [bm2]\<rparr>"]
    by blast
  moreover have "bookmarks (on_DELETE ''1'' (init\<lparr>bookmarks := [bm2, bm1]\<rparr>)) = [bm2]"
    using C3_delete_removes_or_noop [where i = "''1''" and s = "init\<lparr>bookmarks := [bm2, bm1]\<rparr>"
        and b = bm2 and prev = "[bm1]"]
      C3_delete_removes_or_noop [where i = "''1''" and b = bm1 and prev = "[]"]
    by (simp add: ids)
  ultimately show ?thesis
    using p a by blast
qed

section \<open>The delete handler\<close>

text \<open>
  Claim C10. \<open>handleDeleteBookmark\<close> leaves the collection as it is, before and after the
  answer of the Store and whatever that answer is: it sets the deleting mark to the id,
  sends one delete and nothing else (no select), and clears the mark, so the state at the
  end differs from the state at the start in \<open>deletingId\<close> only. The element leaves the
  collection when the DELETE handler runs.
\<close>

theorem C10_delete_handler_frame:
  "bookmarks (fst (handleDeleteBookmark_begin uid i s)) = bookmarks s \<and>
   deletingId (fst (handleDeleteBookmark_begin uid i s)) = Some i \<and>
   bookmarks (handleDeleteBookmark_resolve err s) = bookmarks s \<and>
   fst (handleDeleteBookmark uid i err s) = s\<lparr>deletingId := None\<rparr> \<and>
   snd (handleDeleteBookmark uid i err s) = [DeleteReq ''bookmarks'' [(''id'', i)]] \<and>
   \<not> list_ex (\<lambda>b. id_b b = i) (bookmarks (on_DELETE i (fst (handleDeleteBookmark uid i err s))))"
  by (simp add: handleDeleteBookmark_def handleDeleteBookmark_begin_def
      handleDeleteBookmark_resolve_def on_DELETE_def on_DELETE_updater_gone)

text \<open>
  Claim C8, as the code has it. The delete request is filtered by the id of the record
  alone: its only filter is \<open>("id", id)\<close>, and the request is the same for every current
  user. Restricting the delete to the rows of the current user is left to the Store.
\<close>

theorem C8_delete_scoped_by_id_only:
  "snd (handleDeleteBookmark_begin uid i s) = [DeleteReq ''bookmarks'' [(''id'', i)]] \<and>
   map filters_of (snd (handleDeleteBookmark_begin uid i s)) = [[(''id'', i)]] \<and>
   snd (handleDeleteBookmark_begin uid i s) = snd (handleDeleteBookmark_begin uid' i s) \<and>
   list_all (scoped_to ''id'' i) (snd (handleDeleteBookmark_begin uid i s)) \<and>
   \<not> list_ex (scoped_to ''user_id'' uid) (snd (handleDeleteBookmark_begin uid i s))"
  by (simp add: handleDeleteBookmark_begin_def scoped_to_def)

text \<open>
  The claim as stated fails: for the user \<open>u1\<close> and the record \<open>1\<close> the delete request
  carries no filter on \<open>user_id\<close>, while the select of \<open>fetchBookmarks\<close> does.
\<close>

theorem C8_delete_not_scoped_to_user:
  "\<not> list_ex (scoped_to ''user_id'' ''u1'') (snd (handleDeleteBookmark_begin ''u1'' ''1'' init)) \<and>
   scoped_to ''user_id'' ''u1'' (fetchBookmarks_request ''u1'')"
  by (simp add: handleDeleteBookmark_begin_def scoped_to_def fetchBookmarks_request_def)

section \<open>Validation and the scheme of the URL\<close>

lemma trim_Nil: "trim [] = []"
  by (simp add: trim_def)

lemma startsWith_append: "startsWith (p @ s) p"
  by (simp add: startsWith_def)

lemma finalUrl_has_scheme:
  "startsWith (finalUrl u) ''http://'' \<or> startsWith (finalUrl u) ''https://''"
  unfolding finalUrl_def using startsWith_append [of "''https://''" "trim u"]
  by (simp split: if_splits)

text \<open>
  Claim C4, as the code has it. The title and the URL are trimmed first. When either is
  empty after trimming (in particular when it is empty) the handler returns without any
  request and without touching the state. Otherwise the one request is the insert, whose
  title is the trimmed title and whose url is: the trimmed URL with \<open>https://\<close> in front when
  the trimmed URL starts with neither \<open>http://\<close> nor \<open>https://\<close>, and the trimmed URL
  itself when it does. The url of the insert starts with one of the two in every case.
\<close>

theorem C4_create_validates_and_defaults_scheme:
  "(trim (url s) = [] \<or> trim (title s) = [] \<longrightarrow> handleAddBookmark_begin uid s = (s, [])) \<and>
   (url s = [] \<or> title s = [] \<longrightarrow> snd (handleAddBookmark_begin uid s) = []) \<and>
   (trim (url s) \<noteq> [] \<and> trim (title s) \<noteq> [] \<longrightarrow>
      snd (handleAddBookmark_begin uid s) =
        [InsertReq ''bookmarks''
           [(''url'', finalUrl (url s)), (''title'', trim (title s)), (''user_id'', uid)]]) \<and>
   (\<not> startsWith (trim u) ''http://'' \<and> \<not> startsWith (trim u) ''https://'' \<longrightarrow>
      finalUrl u = ''https://'' @ trim u) \<and>
   (startsWith (trim u) ''http://'' \<or> startsWith (trim u) ''https://'' \<longrightarrow>
      finalUrl u = trim u) \<and>
   (startsWith (finalUrl u) ''http://'' \<or> startsWith (finalUrl u) ''https://'')"
proof -
  have blank: "trim (url s) = [] \<or> trim (title s) = [] \<longrightarrow> handleAddBookmark_begin uid s = (s, [])"
    by (simp add: handleAddBookmark_begin_def)
  have empty: "url s = [] \<or> title s = [] \<longrightarrow> snd (handleAddBookmark_begin uid s) = []"
    using blank by (auto simp: trim_Nil)
  have sent: "trim (url s) \<noteq> [] \<and> trim (title s) \<noteq> [] \<longrightarrow>
      snd (handleAddBookmark_begin uid s) =
        [InsertReq ''bookmarks''
           [(''url'', finalUrl (url s)), (''title'', trim (title s)), (''user_id'', uid)]]"
    by (simp add: handleAddBookmark_begin_def)
  have added: "\<not> startsWith (trim u) ''http://'' \<and> \<not> startsWith (trim u) ''https://'' \<longrightarrow>
      finalUrl u = ''https://'' @ trim u"
    by (simp add: finalUrl_def)
  have kept: "startsWith (trim u) ''http://'' \<or> startsWith (trim u) ''https://'' \<longrightarrow>
      finalUrl u = trim u"
    by (auto simp: finalUrl_def)
  from blank empty sent added kept finalUrl_has_scheme [of u] show ?thesis
    by blast
qed

lemma trim_example: "trim ''example.com'' = ''example.com''"
  by (simp add: trim_def isWhiteSpace_def)

lemma trim_Example: "trim ''Example'' = ''Example''"
  by (simp add: trim_def isWhiteSpace_def)

lemma trim_trailing: "trim ''https://example.com '' = ''https://example.com''"
  by (simp add: trim_def isWhiteSpace_def)

theorem C4_create_validates_and_defaults_scheme_witness:
  "trim (url (form ''Example'' ''example.com'')) \<noteq> [] \<and>
   trim (title (form ''Example'' ''example.com'')) \<noteq> [] \<and>
   \<not> startsWith (trim ''example.com'') ''http://'' \<and>
   \<not> startsWith (trim ''example.com'') ''https://'' \<and>
   snd (handleAddBookmark_begin ''u1'' (form ''Example'' ''example.com'')) =
     [InsertReq ''bookmarks''
        [(''url'', ''https://example.com''), (''title'', ''Example''), (''user_id'', ''u1'')]] \<and>
   title (form [] ''example.com'') = [] \<and>
   snd (handleAddBookmark_begin ''u1'' (form [] ''example.com'')) = [] \<and>
   startsWith (trim ''https://example.com '') ''https://'' \<and>
   finalUrl ''https://example.com '' = ''https://example.com''"
proof -
  let ?s = "form ''Example'' ''example.com''"
  have v: "trim (url ?s) \<noteq> [] \<and> trim (title ?s) \<noteq> []"
    by (simp add: form_def trim_example trim_Example)
  have n: "\<not> startsWith (trim ''example.com'') ''http://'' \<and>
           \<not> startsWith (trim ''example.com'') ''https://''"
    by (simp add: trim_example startsWith_def)
  have u: "finalUrl ''example.com'' = ''https://example.com''"
    using n C4_create_validates_and_defaults_scheme [of ?s "''u1''" "''example.com''"]
    by (simp add: trim_example)
  have r: "snd (handleAddBookmark_begin ''u1'' ?s) =
     [InsertReq ''bookmarks''
        [(''url'', ''https://example.com''), (''title'', ''Example''), (''user_id'', ''u1'')]]"
    using v u C4_create_validates_and_defaults_scheme [of ?s "''u1''" "''example.com''"]
    by (simp add: form_def trim_Example)
  have e: "title (form [] ''example.com'') = []"
    by (simp add: form_def)
  have b: "snd (handleAddBookmark_begin ''u1'' (form [] ''example.com'')) = []"
    using e C4_create_validates_and_defaults_scheme [of "form [] ''example.com''" "''u1''" "[]"]
    by blast
  have p: "startsWith (trim ''https://example.com '') ''https://''"
    by (simp add: trim_trailing startsWith_def)
  have k: "finalUrl ''https://example.com '' = ''https://example.com''"
    using p C4_create_validates_and_defaults_scheme [of ?s "''u1''" "''https://example.com ''"]
    by (simp add: trim_trailing)
  from v n r e b p k show ?thesis
    by blast
qed

text \<open>
  The claim as stated fails on a URL that has its scheme and ends in a space: it starts
  with \<open>https://\<close>, and the url of the insert is not the URL that was entered.
\<close>

theorem C4_url_with_scheme_not_unchanged:
  "startsWith ''https://example.com '' ''https://'' \<and>
   snd (handleAddBookmark_begin ''u1'' (form ''Example'' ''https://example.com '')) =
     [InsertReq ''bookmarks''
        [(''url'', ''https://example.com''), (''title'', ''Example''), (''user_id'', ''u1'')]] \<and>
   ''https://example.com'' \<noteq> ''https://example.com ''"
  by (simp add: startsWith_def handleAddBookmark_begin_def form_def finalUrl_def
      trim_trailing trim_Example)

section \<open>The answer of the insert\<close>

lemma fetchBookmarks_resolve_data:
  "bookmarks (fetchBookmarks_resolve \<lparr>data = Some d, error = None\<rparr> s) = d"
  by (simp add: fetchBookmarks_resolve_def)

lemma fetchBookmarks_resolve_error:
  "fetchBookmarks_resolve \<lparr>data = d, error = Some msg\<rparr> s = s\<lparr>errorMsg := Some msg, loading := False\<rparr>"
  by (simp add: fetchBookmarks_resolve_def)

lemma handleAddBookmark_valid:
  "trim (url s) \<noteq> [] \<Longrightarrow> trim (title s) \<noteq> [] \<Longrightarrow>
   handleAddBookmark uid err s =
     (fst (handleAddBookmark_resolve uid err (s\<lparr>adding := True, errorMsg := None\<rparr>)),
      InsertReq ''bookmarks''
        [(''url'', finalUrl (url s)), (''title'', trim (title s)), (''user_id'', uid)]
      # snd (handleAddBookmark_resolve uid err (s\<lparr>adding := True, errorMsg := None\<rparr>)))"
  by (simp add: handleAddBookmark_def handleAddBookmark_begin_def split: prod.splits)

lemma run_append: "run (xs @ ys) s = run ys (run xs s)"
  by (simp add: run_def)

lemma run_Cons: "run (x # xs) s = run xs (apply_operation x s)"
  by (simp add: run_def)

lemma run_snapshot_last:
  "bookmarks (run (xs @ [Snapshot \<lparr>data = Some d, error = None\<rparr>]) s) = d"
  by (simp add: run_append run_def fetchBookmarks_resolve_data)

lemma run_echoes:
  "list_all (\<lambda>r. list_ex (\<lambda>b. id_b b = id_b r) d) rs \<Longrightarrow> bookmarks s = d \<Longrightarrow>
   bookmarks (run (map Added rs) s) = d"
proof (induction rs arbitrary: s)
  case Nil
  then show ?case by (simp add: run_def)
next
  case (Cons r rs)
  from Cons.prems have "bookmarks (on_INSERT r s) = d"
    by (simp add: on_INSERT_def on_INSERT_updater_present)
  moreover from Cons.prems have "list_all (\<lambda>r. list_ex (\<lambda>b. id_b b = id_b r) d) rs"
    by simp
  ultimately have "bookmarks (run (map Added rs) (on_INSERT r s)) = d"
    by (simp add: Cons.IH)
  then show ?case
    by (simp add: run_Cons)
qed

text \<open>
  Claim C5, as the code has it. When the insert succeeds, the answer itself does not
  change the collection; the handler sends, as its only request after the insert, the
  select on \<open>bookmarks\<close> filtered by \<open>user_id\<close> of the current user and ordered by
  \<open>created_at\<close> descending. When the answer to a select is data, the collection is that
  data whatever it held and whatever operations were handled before, so a feed event that
  was lost, late or out of order is made up for; feed events that deliver again records
  of the data leave the collection as the data.
\<close>

theorem C5_create_success_refetches:
  "snd (handleAddBookmark_resolve uid None s) =
     [SelectReq ''bookmarks'' [(''user_id'', uid)] (''created_at'', False)] \<and>
   bookmarks (fst (handleAddBookmark_resolve uid None s)) = bookmarks s \<and>
   (trim (url s) \<noteq> [] \<and> trim (title s) \<noteq> [] \<longrightarrow>
      snd (handleAddBookmark uid None s) =
        [InsertReq ''bookmarks''
           [(''url'', finalUrl (url s)), (''title'', trim (title s)), (''user_id'', uid)],
         SelectReq ''bookmarks'' [(''user_id'', uid)] (''created_at'', False)] \<and>
      bookmarks (fst (handleAddBookmark uid None s)) = bookmarks s) \<and>
   bookmarks (fetchBookmarks_resolve \<lparr>data = Some d, error = None\<rparr> s') = d \<and>
   bookmarks (run (xs @ [Snapshot \<lparr>data = Some d, error = None\<rparr>]) s') = d \<and>
   (list_ex (\<lambda>b. id_b b = id_b r) d \<longrightarrow>
      bookmarks (on_INSERT r (fetchBookmarks_resolve \<lparr>data = Some d, error = None\<rparr> s')) = d) \<and>
   (list_all (\<lambda>r. list_ex (\<lambda>b. id_b b = id_b r) d) rs \<longrightarrow>
      bookmarks (run (xs @ Snapshot \<lparr>data = Some d, error = None\<rparr> # map Added rs) s') = d)"
proof -
  have reqs: "snd (handleAddBookmark_resolve uid None s) =
      [SelectReq ''bookmarks'' [(''user_id'', uid)] (''created_at'', False)]" for s
    by (simp add: handleAddBookmark_resolve_def fetchBookmarks_begin_def
        fetchBookmarks_request_def)
  have same: "bookmarks (fst (handleAddBookmark_resolve uid None s)) = bookmarks s" for s
    by (simp add: handleAddBookmark_resolve_def fetchBookmarks_begin_def)
  have whole: "trim (url s) \<noteq> [] \<and> trim (title s) \<noteq> [] \<longrightarrow>
      snd (handleAddBookmark uid None s) =
        [InsertReq ''bookmarks''
           [(''url'', finalUrl (url s)), (''title'', trim (title s)), (''user_id'', uid)],
         SelectReq ''bookmarks'' [(''user_id'', uid)] (''created_at'', False)] \<and>
      bookmarks (fst (handleAddBookmark uid None s)) = bookmarks s"
    by (simp add: handleAddBookmark_valid reqs same)
  have late: "list_ex (\<lambda>b. id_b b = id_b r) d \<longrightarrow>
      bookmarks (on_INSERT r (fetchBookmarks_resolve \<lparr>data = Some d, error = None\<rparr> s')) = d"
    by (simp add: on_INSERT_def fetchBookmarks_resolve_data on_INSERT_updater_present)
  have split: "run (xs @ Snapshot \<lparr>data = Some d, error = None\<rparr> # map Added rs) s' =
      run (map Added rs) (run (xs @ [Snapshot \<lparr>data = Some d, error = None\<rparr>]) s')"
    by (simp add: run_def)
  have echoes: "list_all (\<lambda>r. list_ex (\<lambda>b. id_b b = id_b r) d) rs \<longrightarrow>
      bookmarks (run (xs @ Snapshot \<lparr>data = Some d, error = None\<rparr> # map Added rs) s') = d"
    unfolding split using run_echoes [OF _ run_snapshot_last [of xs d s'], of rs]
    by blast
  from reqs [of s] same [of s] whole late echoes
    fetchBookmarks_resolve_data [of d s'] run_snapshot_last [of xs d s']
  show ?thesis
    by blast
qed

theorem C5_create_success_refetches_witness:
  "trim (url (form ''Example'' ''example.com'')) \<noteq> [] \<and>
   trim (title (form ''Example'' ''example.com'')) \<noteq> [] \<and>
   snd (handleAddBookmark ''u1'' None (form ''Example'' ''example.com'')) =
     [InsertReq ''bookmarks''
        [(''url'', ''https://example.com''), (''title'', ''Example''), (''user_id'', ''u1'')],
      SelectReq ''bookmarks'' [(''user_id'', ''u1'')] (''created_at'', False)] \<and>
   list_ex (\<lambda>b. id_b b = id_b bm2) [bm2, bm1] \<and>
   bookmarks (on_INSERT bm2 (fetchBookmarks_resolve \<lparr>data = Some [bm2, bm1], error = None\<rparr> init))
     = [bm2, bm1] \<and>
   list_all (\<lambda>r. list_ex (\<lambda>b. id_b b = id_b r) [bm2, bm1]) [bm1, bm2] \<and>
   bookmarks (run ([Added bm1, Removed ''2'']
       @ Snapshot \<lparr>data = Some [bm2, bm1], error = None\<rparr> # map Added [bm1, bm2]) init)
     = [bm2, bm1]"
proof -
  let ?s = "form ''Example'' ''example.com''"
  have v: "trim (url ?s) \<noteq> [] \<and> trim (title ?s) \<noteq> []"
    by (simp add: form_def trim_example trim_Example)
  have p: "list_ex (\<lambda>b. id_b b = id_b bm2) [bm2, bm1]"
    by simp
  have q: "list_all (\<lambda>r. list_ex (\<lambda>b. id_b b = id_b r) [bm2, bm1]) [bm1, bm2]"
    by simp
  have u: "finalUrl (url ?s) = ''https://example.com''"
    by (simp add: form_def finalUrl_def trim_example startsWith_def)
  have t: "trim (title ?s) = ''Example''"
    by (simp add: form_def trim_Example)
  note inst = C5_create_success_refetches [where uid = "''u1''" and s = ?s and d = "[bm2, bm1]"
      and s' = init and r = bm2 and rs = "[bm1, bm2]" and xs = "[Added bm1, Removed ''2'']"]
  have a: "snd (handleAddBookmark ''u1'' None ?s) =
     [InsertReq ''bookmarks''
        [(''url'', ''https://example.com''), (''title'', ''Example''), (''user_id'', ''u1'')],
      SelectReq ''bookmarks'' [(''user_id'', ''u1'')] (''created_at'', False)]"
    using v inst by (simp add: u t)
  have b: "bookmarks (on_INSERT bm2
        (fetchBookmarks_resolve \<lparr>data = Some [bm2, bm1], error = None\<rparr> init)) = [bm2, bm1]"
    using p inst by blast
  have c: "bookmarks (run ([Added bm1, Removed ''2'']
       @ Snapshot \<lparr>data = Some [bm2, bm1], error = None\<rparr> # map Added [bm1, bm2]) init)
     = [bm2, bm1]"
    using q inst by blast
  from v a p b q c show ?thesis
    by blast
qed

text \<open>
  The claim as stated fails, since the collection need not arrive at the state of the
  Store when the feed event is lost. The Store holds \<open>bm1\<close> and, after the insert of this
  create, \<open>bm2\<close>. The select of the create is answered with both; then the answer to an
  earlier select, sent before \<open>bm2\<close> existed, arrives and replaces the collection by
  \<open>bm1\<close> alone. And when the select of the create fails, the collection stays empty.
\<close>

theorem C5_refetch_does_not_force_convergence:
  "snd (handleAddBookmark ''u1'' None (form ''Two'' ''two.example'')) =
     [InsertReq ''bookmarks''
        [(''url'', ''https://two.example''), (''title'', ''Two''), (''user_id'', ''u1'')],
      SelectReq ''bookmarks'' [(''user_id'', ''u1'')] (''created_at'', False)] \<and>
   bookmarks (fetchBookmarks_resolve \<lparr>data = Some [bm1], error = None\<rparr>
     (fetchBookmarks_resolve \<lparr>data = Some [bm2, bm1], error = None\<rparr>
        (fst (handleAddBookmark ''u1'' None (form ''Two'' ''two.example''))))) = [bm1] \<and>
   [bm1] \<noteq> [bm2, bm1] \<and>
   bookmarks (fetchBookmarks_resolve \<lparr>data = None, error = Some ''timeout''\<rparr>
     (fst (handleAddBookmark ''u1'' None (form ''Two'' ''two.example'')))) = [] \<and>
   [] \<noteq> [bm2, bm1]"
proof -
  have t: "trim ''Two'' = ''Two''" "trim ''two.example'' = ''two.example''"
    by (simp_all add: trim_def isWhiteSpace_def)
  have v: "trim (url (form ''Two'' ''two.example'')) \<noteq> []"
    "trim (title (form ''Two'' ''two.example'')) \<noteq> []"
    by (simp_all add: form_def t)
  show ?thesis
    by (simp add: handleAddBookmark_valid v handleAddBookmark_resolve_def
        fetchBookmarks_begin_def fetchBookmarks_request_def fetchBookmarks_resolve_def
        form_def init_def finalUrl_def startsWith_def t)
qed

text \<open>
  Claim C6, as the code has it. When the insert fails with the message \<open>msg\<close>, the handler
  sets the error message to \<open>msg\<close>, clears \<open>adding\<close> and changes nothing else: it sends no
  further request, and the form and the collection are those from before, after the
  answer and after the whole handler, whatever was entered. The alert shows \<open>msg\<close> when
  \<open>msg\<close> is not empty and is not rendered when \<open>msg\<close> is empty; its button clears the
  message.
\<close>

theorem C6_create_failure_keeps_collection:
  "fst (handleAddBookmark_resolve uid (Some msg) s) = s\<lparr>errorMsg := Some msg, adding := False\<rparr> \<and>
   snd (handleAddBookmark_resolve uid (Some msg) s) = [] \<and>
   bookmarks (fst (handleAddBookmark_resolve uid (Some msg) s)) = bookmarks s \<and>
   errorMsg (fst (handleAddBookmark_resolve uid (Some msg) s)) = Some msg \<and>
   adding (fst (handleAddBookmark_resolve uid (Some msg) s)) = False \<and>
   url (fst (handleAddBookmark_resolve uid (Some msg) s)) = url s \<and>
   title (fst (handleAddBookmark_resolve uid (Some msg) s)) = title s \<and>
   errorAlert (fst (handleAddBookmark_resolve uid (Some msg) s)) =
     (if msg = [] then None else Some msg) \<and>
   errorAlert (dismissError (fst (handleAddBookmark_resolve uid (Some msg) s))) = None \<and>
   bookmarks (fst (handleAddBookmark uid (Some msg) s)) = bookmarks s \<and>
   (trim (url s) \<noteq> [] \<and> trim (title s) \<noteq> [] \<longrightarrow>
      fst (handleAddBookmark uid (Some msg) s) = s\<lparr>errorMsg := Some msg, adding := False\<rparr> \<and>
      snd (handleAddBookmark uid (Some msg) s) =
        [InsertReq ''bookmarks''
           [(''url'', finalUrl (url s)), (''title'', trim (title s)), (''user_id'', uid)]] \<and>
      errorAlert (fst (handleAddBookmark uid (Some msg) s)) =
        (if msg = [] then None else Some msg))"
proof -
  have res: "fst (handleAddBookmark_resolve uid (Some msg) s) = s\<lparr>errorMsg := Some msg, adding := False\<rparr>"
    "snd (handleAddBookmark_resolve uid (Some msg) s) = []" for s
    by (simp_all add: handleAddBookmark_resolve_def)
  have whole: "bookmarks (fst (handleAddBookmark uid (Some msg) s)) = bookmarks s"
    by (cases "trim (url s) = [] \<or> trim (title s) = []")
      (auto simp: handleAddBookmark_valid res, auto simp: handleAddBookmark_def handleAddBookmark_begin_def)
  have shown: "trim (url s) \<noteq> [] \<and> trim (title s) \<noteq> [] \<longrightarrow>
      fst (handleAddBookmark uid (Some msg) s) = s\<lparr>errorMsg := Some msg, adding := False\<rparr> \<and>
      snd (handleAddBookmark uid (Some msg) s) =
        [InsertReq ''bookmarks''
           [(''url'', finalUrl (url s)), (''title'', trim (title s)), (''user_id'', uid)]] \<and>
      errorAlert (fst (handleAddBookmark uid (Some msg) s)) =
        (if msg = [] then None else Some msg)"
    by (simp add: handleAddBookmark_valid res errorAlert_def)
  have rest: "errorAlert (s\<lparr>errorMsg := Some msg, adding := False\<rparr>) =
      (if msg = [] then None else Some msg)"
    "errorAlert (dismissError (s\<lparr>errorMsg := Some msg, adding := False\<rparr>)) = None"
    by (simp_all add: errorAlert_def dismissError_def)
  from whole shown rest show ?thesis
    by (simp only: res) simp
qed

theorem C6_create_failure_keeps_collection_witness:
  "trim (url ((form ''Example'' ''example.com'')\<lparr>bookmarks := [bm1]\<rparr>)) \<noteq> [] \<and>
   trim (title ((form ''Example'' ''example.com'')\<lparr>bookmarks := [bm1]\<rparr>)) \<noteq> [] \<and>
   bookmarks (fst (handleAddBookmark ''u1'' (Some ''duplicate key'')
     ((form ''Example'' ''example.com'')\<lparr>bookmarks := [bm1]\<rparr>))) = [bm1] \<and>
   errorMsg (fst (handleAddBookmark ''u1'' (Some ''duplicate key'')
     ((form ''Example'' ''example.com'')\<lparr>bookmarks := [bm1]\<rparr>))) = Some ''duplicate key'' \<and>
   errorAlert (fst (handleAddBookmark ''u1'' (Some ''duplicate key'')
     ((form ''Example'' ''example.com'')\<lparr>bookmarks := [bm1]\<rparr>))) = Some ''duplicate key''"
proof -
  let ?s = "(form ''Example'' ''example.com'')\<lparr>bookmarks := [bm1]\<rparr>"
  let ?t = "fst (handleAddBookmark ''u1'' (Some ''duplicate key'') ?s)"
  have v: "trim (url ?s) \<noteq> [] \<and> trim (title ?s) \<noteq> []"
    by (simp add: form_def trim_example trim_Example)
  note inst = C6_create_failure_keeps_collection [where uid = "''u1''" and msg = "''duplicate key''"
      and s = ?s]
  have k: "bookmarks ?t = bookmarks ?s"
    using inst by blast
  have f: "?t = ?s\<lparr>errorMsg := Some ''duplicate key'', adding := False\<rparr>"
    using v inst by blast
  have e: "errorAlert ?t = (if ''duplicate key'' = [] then None else Some ''duplicate key'')"
    using v inst by blast
  have k': "bookmarks ?t = [bm1]"
    using k by simp
  have m: "errorMsg ?t = Some ''duplicate key''"
    by (subst f) simp
  have e': "errorAlert ?t = Some ''duplicate key''"
    using e by simp
  from v k' m e' show ?thesis
    by blast
qed

text \<open>
  The claim as stated fails when the error of the Store has the empty message: the insert
  is sent and fails, the error message of the component is the empty string, and the
  alert is not rendered, so the user sees no error.
\<close>

theorem C6_empty_message_shows_no_alert:
  "snd (handleAddBookmark ''u1'' (Some []) (form ''Example'' ''example.com'')) =
     [InsertReq ''bookmarks''
        [(''url'', ''https://example.com''), (''title'', ''Example''), (''user_id'', ''u1'')]] \<and>
   errorMsg (fst (handleAddBookmark ''u1'' (Some []) (form ''Example'' ''example.com''))) = Some [] \<and>
   errorAlert (fst (handleAddBookmark ''u1'' (Some []) (form ''Example'' ''example.com''))) = None"
proof -
  have v: "trim (url (form ''Example'' ''example.com'')) \<noteq> []"
    "trim (title (form ''Example'' ''example.com'')) \<noteq> []"
    by (simp_all add: form_def trim_example trim_Example)
  show ?thesis
    by (simp add: handleAddBookmark_valid v handleAddBookmark_resolve_def errorAlert_def
        form_def finalUrl_def startsWith_def trim_example trim_Example)
qed

section \<open>Errors of the three kinds\<close>

text \<open>
  Claim C7, as the code has it. A failed snapshot sets the error message to the message of
  the failure, clears \<open>loading\<close> and changes nothing else; a failed insert sets the error
  message, clears \<open>adding\<close> and changes nothing else. The alert shows the message when it is
  not empty and is not rendered when it is empty; its button clears the message. A status
  of the channel runs no code of the component, so a failure of the subscription changes
  nothing and sets no message. None of them stops the component: afterwards a snapshot
  that succeeds replaces the collection, a new select clears the message, feed events
  change the collection as they do without the failure, and the form sends the same
  insert again.
\<close>

theorem C7_fetch_and_insert_errors_surface:
  "fetchBookmarks_resolve \<lparr>data = d, error = Some msg\<rparr> s = s\<lparr>errorMsg := Some msg, loading := False\<rparr> \<and>
   fst (handleAddBookmark_resolve uid (Some msg) s) = s\<lparr>errorMsg := Some msg, adding := False\<rparr> \<and>
   errorMsg (fetchBookmarks_resolve \<lparr>data = d, error = Some msg\<rparr> s) = Some msg \<and>
   bookmarks (fetchBookmarks_resolve \<lparr>data = d, error = Some msg\<rparr> s) = bookmarks s \<and>
   loading (fetchBookmarks_resolve \<lparr>data = d, error = Some msg\<rparr> s) = False \<and>
   errorMsg (fst (handleAddBookmark_resolve uid (Some msg) s)) = Some msg \<and>
   errorAlert (fetchBookmarks_resolve \<lparr>data = d, error = Some msg\<rparr> s) =
     (if msg = [] then None else Some msg) \<and>
   errorAlert (fst (handleAddBookmark_resolve uid (Some msg) s)) =
     (if msg = [] then None else Some msg) \<and>
   errorAlert (dismissError s) = None \<and>
   subscribe_status st s = s \<and>
   bookmarks (fetchBookmarks_resolve \<lparr>data = Some d', error = None\<rparr>
      (fetchBookmarks_resolve \<lparr>data = d, error = Some msg\<rparr> s)) = d' \<and>
   errorMsg (fst (fetchBookmarks_begin uid
      (fetchBookmarks_resolve \<lparr>data = d, error = Some msg\<rparr> s))) = None \<and>
   bookmarks (apply_operation x (fetchBookmarks_resolve \<lparr>data = d, error = Some msg\<rparr> s)) =
     bookmarks (apply_operation x s) \<and>
   bookmarks (apply_operation x (fst (handleAddBookmark_resolve uid (Some msg) s))) =
     bookmarks (apply_operation x s) \<and>
   snd (handleAddBookmark_begin uid (fst (handleAddBookmark_resolve uid (Some msg) s))) =
     snd (handleAddBookmark_begin uid s) \<and>
   bookmarks (apply_operation x (subscribe_status st s)) = bookmarks (apply_operation x s)"
proof -
  have ins: "fst (handleAddBookmark_resolve uid (Some msg) s) = s\<lparr>errorMsg := Some msg, adding := False\<rparr>"
    by (simp add: handleAddBookmark_resolve_def)
  have op1: "bookmarks (apply_operation x (s\<lparr>errorMsg := Some msg, loading := False\<rparr>)) =
      bookmarks (apply_operation x s)"
    by (cases x) (simp_all add: fetchBookmarks_resolve_def on_INSERT_def on_DELETE_def
        split: option.splits)
  have op2: "bookmarks (apply_operation x (s\<lparr>errorMsg := Some msg, adding := False\<rparr>)) =
      bookmarks (apply_operation x s)"
    by (cases x) (simp_all add: fetchBookmarks_resolve_def on_INSERT_def on_DELETE_def
        split: option.splits)
  have again: "snd (handleAddBookmark_begin uid (s\<lparr>errorMsg := Some msg, adding := False\<rparr>)) =
      snd (handleAddBookmark_begin uid s)"
    by (simp add: handleAddBookmark_begin_def)
  from op1 op2 again show ?thesis
    by (simp add: fetchBookmarks_resolve_error ins fetchBookmarks_resolve_data
        fetchBookmarks_begin_def errorAlert_def dismissError_def subscribe_status_def)
qed

text \<open>
  The claim as stated fails: a delete that the Store answers with an error leaves no
  message and no alert, neither does a channel that reports \<open>CHANNEL_ERROR\<close>, and a
  snapshot that fails with the empty message renders no alert.
\<close>

theorem C7_delete_and_subscription_errors_dropped:
  "errorMsg (fst (handleDeleteBookmark ''u1'' ''1'' (Some ''permission denied'')
      (init\<lparr>bookmarks := [bm1], loading := False\<rparr>))) = None \<and>
   errorAlert (fst (handleDeleteBookmark ''u1'' ''1'' (Some ''permission denied'')
      (init\<lparr>bookmarks := [bm1], loading := False\<rparr>))) = None \<and>
   errorAlert (subscribe_status CHANNEL_ERROR (init\<lparr>bookmarks := [bm1], loading := False\<rparr>)) = None \<and>
   errorAlert (fetchBookmarks_resolve \<lparr>data = None, error = Some []\<rparr> init) = None"
  by (simp add: handleDeleteBookmark_def handleDeleteBookmark_begin_def
      handleDeleteBookmark_resolve_def subscribe_status_def errorAlert_def init_def
      fetchBookmarks_resolve_def)

theorem C7_fetch_and_insert_errors_surface_witness:
  "errorAlert (fetchBookmarks_resolve \<lparr>data = None, error = Some ''timeout''\<rparr> init) = Some ''timeout'' \<and>
   errorAlert (fst (handleAddBookmark_resolve ''u1'' (Some ''timeout'') init)) = Some ''timeout'' \<and>
   bookmarks (fetchBookmarks_resolve \<lparr>data = None, error = Some ''timeout''\<rparr> init) = [] \<and>
   bookmarks (fetchBookmarks_resolve \<lparr>data = Some [bm1], error = None\<rparr>
      (fetchBookmarks_resolve \<lparr>data = None, error = Some ''timeout''\<rparr> init)) = [bm1]"
proof -
  let ?f = "fetchBookmarks_resolve \<lparr>data = None, error = Some ''timeout''\<rparr> init"
  let ?a = "fst (handleAddBookmark_resolve ''u1'' (Some ''timeout'') init)"
  note inst = C7_fetch_and_insert_errors_surface [where d = None and msg = "''timeout''"
      and s = init and uid = "''u1''" and d' = "[bm1]"]
  have e1: "errorAlert ?f = (if ''timeout'' = [] then None else Some ''timeout'')"
    using inst by blast
  have e2: "errorAlert ?a = (if ''timeout'' = [] then None else Some ''timeout'')"
    using inst by blast
  have k: "bookmarks ?f = bookmarks init"
    using inst by blast
  have r: "bookmarks (fetchBookmarks_resolve \<lparr>data = Some [bm1], error = None\<rparr> ?f) = [bm1]"
    using inst by blast
  have e1': "errorAlert ?f = Some ''timeout''"
    using e1 by simp
  have e2': "errorAlert ?a = Some ''timeout''"
    using e2 by simp
  have k': "bookmarks ?f = []"
    using k by (simp add: init_def)
  from e1' e2' k' r show ?thesis
    by blast
qed

section \<open>Answers that arrive after the cleanup\<close>

text \<open>
  Claim C9, as the code has it. The cleanup of the effect removes the channel and changes
  nothing in the state; no handler reads whether it has run. An answer to the select that
  arrives after the cleanup is handled as one that arrives before: with data it replaces
  the collection by the data. The same holds for the answer to an insert.
\<close>

theorem C9_cleanup_only_removes_channel:
  "fst (realtime_cleanup s) = s \<and>
   snd (realtime_cleanup s) = [RemoveChannelReq ''bookmarks-realtime''] \<and>
   fetchBookmarks_resolve r (fst (realtime_cleanup s)) = fetchBookmarks_resolve r s \<and>
   bookmarks (fetchBookmarks_resolve \<lparr>data = Some d, error = None\<rparr> (fst (realtime_cleanup s))) = d \<and>
   handleAddBookmark_resolve uid err (fst (realtime_cleanup s)) = handleAddBookmark_resolve uid err s"
  by (simp add: realtime_cleanup_def fetchBookmarks_resolve_data)

text \<open>
  The claim as stated fails: the effect starts the select for \<open>u1\<close> on the initial state,
  the cleanup runs while the collection is still empty, and the answer that arrives then
  puts its record into the collection.
\<close>

theorem C9_stale_snapshot_repopulates:
  "snd (realtime_effect ''u1'' init) =
     [SelectReq ''bookmarks'' [(''user_id'', ''u1'')] (''created_at'', False),
      SubscribeReq ''bookmarks-realtime''
        [(''INSERT'', ''user_id=eq.u1''), (''DELETE'', ''user_id=eq.u1'')]] \<and>
   bookmarks (fst (realtime_cleanup (fst (realtime_effect ''u1'' init)))) = [] \<and>
   bookmarks (fetchBookmarks_resolve \<lparr>data = Some [bm1], error = None\<rparr>
      (fst (realtime_cleanup (fst (realtime_effect ''u1'' init))))) = [bm1] \<and>
   [bm1] \<noteq> []"
  by (simp add: realtime_effect_def realtime_cleanup_def fetchBookmarks_begin_def
      fetchBookmarks_request_def fetchBookmarks_resolve_def init_def)

section \<open>The order of the collection\<close>

lemma ordered_on_DELETE_updater: "ordered prev \<Longrightarrow> ordered (on_DELETE_updater i prev)"
  by (simp add: ordered_def on_DELETE_updater_def sorted_wrt_filter)

lemma ordered_on_INSERT_updater:
  "ordered prev \<Longrightarrow>
   ordered (on_INSERT_updater r prev) \<longleftrightarrow>
     list_ex (\<lambda>b. id_b b = id_b r) prev \<or> list_all (precedes r) prev"
  by (auto simp: ordered_def on_INSERT_updater_def list_all_iff)

lemma apply_operation_ordered:
  "ordered (bookmarks s) \<Longrightarrow> arrives_in_order x s \<Longrightarrow> ordered (bookmarks (apply_operation x s))"
proof (cases x)
  case (Snapshot r)
  assume "ordered (bookmarks s)" "arrives_in_order x s"
  with Snapshot show ?thesis
    by (auto simp: fetchBookmarks_resolve_def split: option.splits)
next
  case (Added b)
  assume "ordered (bookmarks s)" "arrives_in_order x s"
  with Added show ?thesis
    by (simp add: on_INSERT_def ordered_on_INSERT_updater)
next
  case (Removed i)
  assume "ordered (bookmarks s)"
  with Removed show ?thesis
    by (simp add: on_DELETE_def ordered_on_DELETE_updater)
qed

lemma run_ordered:
  "ordered (bookmarks s) \<Longrightarrow> in_order_run xs s \<Longrightarrow> ordered (bookmarks (run xs s))"
proof (induction xs arbitrary: s)
  case Nil
  then show ?case by (simp add: run_def)
next
  case (Cons x xs)
  from Cons.prems have "ordered (bookmarks (apply_operation x s))"
    by (simp add: apply_operation_ordered)
  moreover from Cons.prems have "in_order_run xs (apply_operation x s)"
    by simp
  ultimately have "ordered (bookmarks (run xs (apply_operation x s)))"
    by (rule Cons.IH)
  then show ?case
    by (simp add: run_def)
qed

text \<open>
  Claim C2, as the code has it. The INSERT handler returns the collection as it is or with
  the new record at the front, nowhere else; a snapshot that succeeds with data becomes
  the collection in the order in which the Store returned it. The DELETE handler keeps a
  sorted collection sorted. The INSERT handler keeps a sorted collection sorted exactly
  when the record has the id of an element or precedes every element. Hence a collection
  sorted by \<open>createdAt\<close> descending, ties by \<open>id\<close> ascending, is still sorted after every run
  of operations that is in order.
\<close>

theorem C2_order_kept_by_in_order_runs:
  "(on_INSERT_updater r prev = prev \<or> on_INSERT_updater r prev = r # prev) \<and>
   bookmarks (apply_operation (Snapshot \<lparr>data = Some d, error = None\<rparr>) s) = d \<and>
   (ordered prev \<longrightarrow> ordered (on_DELETE_updater i prev)) \<and>
   (ordered prev \<longrightarrow>
      (ordered (on_INSERT_updater r prev) \<longleftrightarrow>
         list_ex (\<lambda>b. id_b b = id_b r) prev \<or> list_all (precedes r) prev)) \<and>
   (ordered (bookmarks s) \<and> in_order_run xs s \<longrightarrow> ordered (bookmarks (run xs s)))"
proof -
  have front: "on_INSERT_updater r prev = prev \<or> on_INSERT_updater r prev = r # prev"
    by (simp add: on_INSERT_updater_def)
  have snap: "bookmarks (apply_operation (Snapshot \<lparr>data = Some d, error = None\<rparr>) s) = d"
    by (simp add: fetchBookmarks_resolve_data)
  from front snap show ?thesis
    using ordered_on_DELETE_updater [of prev i] ordered_on_INSERT_updater [of prev r]
      run_ordered [of s xs]
    by blast
qed

lemma bm2_precedes_bm1: "precedes bm2 bm1"
  by (simp add: precedes_def bm1_def bm2_def)

lemma bm1_not_precedes_bm2: "\<not> precedes bm1 bm2"
  by (simp add: precedes_def bm1_def bm2_def)

theorem C2_order_kept_by_in_order_runs_witness:
  "ordered (bookmarks init) \<and>
   in_order_run [Snapshot \<lparr>data = Some [bm2, bm1], error = None\<rparr>, Removed ''2'', Added bm2] init \<and>
   bookmarks (run [Snapshot \<lparr>data = Some [bm2, bm1], error = None\<rparr>, Removed ''2'', Added bm2] init)
     = [bm2, bm1] \<and>
   ordered (bookmarks
     (run [Snapshot \<lparr>data = Some [bm2, bm1], error = None\<rparr>, Removed ''2'', Added bm2] init)) \<and>
   ordered [bm1] \<and> list_all (precedes bm2) [bm1] \<and> ordered (on_INSERT_updater bm2 [bm1]) \<and>
   ordered [bm2, bm1] \<and> ordered (on_DELETE_updater ''1'' [bm2, bm1])"
proof -
  let ?xs = "[Snapshot \<lparr>data = Some [bm2, bm1], error = None\<rparr>, Removed ''2'', Added bm2]"
  have o0: "ordered (bookmarks init)"
    by (simp add: init_def ordered_def)
  have o1: "ordered [bm1]"
    by (simp add: ordered_def)
  have o2: "ordered [bm2, bm1]"
    by (simp add: ordered_def bm2_precedes_bm1)
  have a: "list_all (precedes bm2) [bm1]"
    by (simp add: bm2_precedes_bm1)
  have ids: "id_b bm1 = ''1''" "id_b bm2 = ''2''"
    by (simp_all add: bm1_def bm2_def)
  have r: "in_order_run ?xs init"
    by (simp add: o2 fetchBookmarks_resolve_def on_DELETE_def on_DELETE_updater_def ids
        bm2_precedes_bm1)
  have v: "bookmarks (run ?xs init) = [bm2, bm1]"
    by (simp add: run_def fetchBookmarks_resolve_def on_DELETE_def on_DELETE_updater_def
        on_INSERT_def on_INSERT_updater_def ids)
  have "ordered (bookmarks (run ?xs init))"
    using o0 r C2_order_kept_by_in_order_runs [of bm2 "[bm1]" "[]" init "''1''" ?xs] by blast
  moreover have "ordered (on_INSERT_updater bm2 [bm1])"
    using o1 a C2_order_kept_by_in_order_runs [of bm2 "[bm1]" "[]" init "''1''" "[]"] by blast
  moreover have "ordered (on_DELETE_updater ''1'' [bm2, bm1])"
    using o2 C2_order_kept_by_in_order_runs [of bm2 "[bm2, bm1]" "[]" init "''1''" "[]"] by blast
  ultimately show ?thesis
    using o0 o1 o2 a r v by blast
qed

text \<open>
  The claim as stated fails when the feed delivers two records out of order: from the
  empty collection, the newer \<open>bm2\<close> and then the older \<open>bm1\<close> give a collection with the
  older record first, which the rule forbids; the same happens to a sorted collection
  that holds \<open>bm2\<close>.
\<close>

theorem C2_insert_at_front_breaks_order:
  "bookmarks (run [Added bm2, Added bm1] init) = [bm1, bm2] \<and>
   \<not> ordered (bookmarks (run [Added bm2, Added bm1] init)) \<and>
   ordered [bm2] \<and> \<not> ordered (on_INSERT_updater bm1 [bm2])"
proof -
  have ids: "id_b bm1 = ''1''" "id_b bm2 = ''2''"
    by (simp_all add: bm1_def bm2_def)
  have v: "bookmarks (run [Added bm2, Added bm1] init) = [bm1, bm2]"
    by (simp add: run_def on_INSERT_def on_INSERT_updater_def init_def ids)
  have w: "on_INSERT_updater bm1 [bm2] = [bm1, bm2]"
    by (simp add: on_INSERT_updater_def ids)
  have n: "\<not> ordered [bm1, bm2]"
    by (simp add: ordered_def bm1_not_precedes_bm2)
  have "ordered [bm2]"
    by (simp add: ordered_def)
  with v w n show ?thesis
    by simp
qed

end
